theory Spec2Isabelle
  imports Main "HOL-Library.List_Lexorder" "HOL-Library.Char_ord"
begin

section \<open>Strings and paths\<close>

text \<open>
  Python \<^verbatim>\<open>str\<close> values are modelled as \<^typ>\<open>string\<close>; file contents
  (\<^verbatim>\<open>bytes\<close>) as well. The operations below are the ones \<^verbatim>\<open>extractor.py\<close>
  applies to descriptions and paths.
\<close>

type_synonym path = string
type_synonym bytes = string

text \<open>\<^verbatim>\<open>t.startswith(s)\<close>\<close>

fun startswith :: "string \<Rightarrow> string \<Rightarrow> bool" where
  "startswith t [] = True"
| "startswith [] (c # s) = False"
| "startswith (x # t) (c # s) = (x = c \<and> startswith t s)"

text \<open>\<^verbatim>\<open>s in t\<close> for strings: \<open>s\<close> is a contiguous substring of \<open>t\<close>.\<close>

fun contains :: "string \<Rightarrow> string \<Rightarrow> bool" where
  "contains s [] = (s = [])"
| "contains s (c # t) = (startswith (c # t) s \<or> contains s t)"

text \<open>\<^verbatim>\<open>t.endswith(s)\<close>\<close>

definition endswith :: "string \<Rightarrow> string \<Rightarrow> bool" where
  "endswith t s = startswith (rev t) (rev s)"

text \<open>\<^verbatim>\<open>t.split(c)\<close> for a one-character separator: never the empty list.\<close>

fun split_on :: "char \<Rightarrow> string \<Rightarrow> string list" where
  "split_on c [] = [[]]"
| "split_on c (x # xs) =
     (if x = c then [] # split_on c xs
      else (case split_on c xs of
              [] \<Rightarrow> [[x]]
            | y # ys \<Rightarrow> (x # y) # ys))"

text \<open>\<^verbatim>\<open>os.path.join(a, b)\<close> (posixpath, two arguments).\<close>

definition os_path_join :: "path \<Rightarrow> path \<Rightarrow> path" where
  "os_path_join a b =
     (if startswith b ''/'' then b
      else if a = [] \<or> endswith a ''/'' then a @ b
      else a @ ''/'' @ b)"

text \<open>\<^verbatim>\<open>os.path.basename(p)\<close>: what follows the last slash.\<close>

definition basename :: "path \<Rightarrow> string" where
  "basename p = rev (takeWhile (\<lambda>c. c \<noteq> CHR ''/'') (rev p))"

section \<open>Exceptions\<close>

text \<open>
  The Python exceptions the modelled code can raise. All of them are subclasses of
  \<^verbatim>\<open>Exception\<close>, so the handler of \<^verbatim>\<open>ExtractionItem.extract\<close> catches each
  of them when it is raised inside the \<^verbatim>\<open>try\<close> block.
\<close>

datatype exn =
    FileNotFoundError
  | NotADirectoryError
  | IsADirectoryError
  | OSError
  | ValueError
  | IndexError
  | RuntimeError
  | TypeError
  | MagicError

section \<open>Directory trees and \<^verbatim>\<open>Extractor.io_find_rootfs\<close>\<close>

text \<open>
  A directory tree as \<^verbatim>\<open>os.listdir\<close> and \<^verbatim>\<open>os.path.isdir\<close> see it: a directory
  is the list of its entries, in the order \<^verbatim>\<open>os.listdir\<close> returns them; every
  other kind of entry is \<open>File\<close>. Symbolic links to directories are not modelled.
\<close>

datatype node = File | Dir "(string \<times> node) list"

fun is_dir :: "node \<Rightarrow> bool" where
  "is_dir File = False"
| "is_dir (Dir es) = True"

fun listdir :: "node \<Rightarrow> (string \<times> node) list" where
  "listdir File = []"
| "listdir (Dir es) = es"

definition UNIX_DIRS :: "string list" where
  "UNIX_DIRS = [''bin'', ''etc'', ''dev'', ''home'', ''lib'', ''mnt'', ''opt'', ''root'',
                ''run'', ''sbin'', ''tmp'', ''usr'', ''var'']"

definition UNIX_THRESHOLD :: nat where
  "UNIX_THRESHOLD = 4"

text \<open>
  The \<^verbatim>\<open>while\<close> loop of \<^verbatim>\<open>io_find_rootfs\<close>: descend while the directory has
  exactly one entry and that entry is a directory.
\<close>

fun collapse :: "path \<Rightarrow> node \<Rightarrow> path \<times> node" where
  "collapse p (Dir [(n, Dir sub)]) = collapse (os_path_join p n) (Dir sub)"
| "collapse p d = (p, d)"

text \<open>The counting loop, with its counter as accumulator.\<close>

fun count_unix :: "(string \<times> node) list \<Rightarrow> nat \<Rightarrow> nat" where
  "count_unix [] count = count"
| "count_unix ((subdir, c) # rest) count =
     count_unix rest (if subdir \<in> set UNIX_DIRS \<and> is_dir c then count + 1 else count)"

text \<open>
  The loop over the subdirectories under \<^verbatim>\<open>if recurse\<close>; \<open>self\<close> is the recursive
  call \<^verbatim>\<open>Extractor.io_find_rootfs(\<dots>, False)\<close>. \<open>None\<close>: the loop ended without
  returning.
\<close>

fun find_in_subdirs ::
  "(path \<Rightarrow> node \<Rightarrow> exn + bool \<times> path) \<Rightarrow> path \<Rightarrow> (string \<times> node) list
     \<Rightarrow> (exn + bool \<times> path) option" where
  "find_in_subdirs self p [] = None"
| "find_in_subdirs self p ((subdir, c) # rest) =
     (if is_dir c then
        (case self (os_path_join p subdir) c of
           Inl e \<Rightarrow> Some (Inl e)
         | Inr res \<Rightarrow> if fst res then Some (Inr res) else find_in_subdirs self p rest)
      else find_in_subdirs self p rest)"

text \<open>
  The body of \<^verbatim>\<open>io_find_rootfs\<close>. \<^verbatim>\<open>os.listdir\<close> raises on a path that is not a
  directory.
\<close>

definition find_rootfs_body ::
  "(path \<Rightarrow> node \<Rightarrow> exn + bool \<times> path) \<Rightarrow> path \<Rightarrow> node \<Rightarrow> bool \<Rightarrow> exn + bool \<times> path" where
  "find_rootfs_body self start d recurse =
     (case d of
        File \<Rightarrow> Inl NotADirectoryError
      | Dir es \<Rightarrow>
          (case collapse start d of
             (p, cur) \<Rightarrow>
               if count_unix (listdir cur) 0 \<ge> UNIX_THRESHOLD then Inr (True, p)
               else if recurse then
                 (case find_in_subdirs self p (listdir cur) of
                    Some r \<Rightarrow> r
                  | None \<Rightarrow> Inr (False, start))
               else Inr (False, start)))"

text \<open>
  The recursive call passes \<^verbatim>\<open>recurse=False\<close>, so the recursion is one level deep:
  the inner call never reaches its own recursive call.
\<close>

definition io_find_rootfs :: "path \<Rightarrow> node \<Rightarrow> bool \<Rightarrow> exn + bool \<times> path" where
  "io_find_rootfs start d recurse =
     find_rootfs_body
       (\<lambda>p n. find_rootfs_body (\<lambda>p' n'. Inl RuntimeError) p n False) start d recurse"

section \<open>Parsing numbers out of descriptions\<close>

definition isdigit :: "char \<Rightarrow> bool" where
  "isdigit c = (c \<in> set ''0123456789'')"

definition digit_value :: "char \<Rightarrow> nat" where
  "digit_value c = of_char c - 48"

text \<open>The digit of a hexadecimal character, if it is one.\<close>

definition hex_value :: "char \<Rightarrow> nat option" where
  "hex_value c =
     (let n = (of_char c :: nat) in
      if 48 \<le> n \<and> n \<le> 57 then Some (n - 48)
      else if 97 \<le> n \<and> n \<le> 102 then Some (n - 87)
      else if 65 \<le> n \<and> n \<le> 70 then Some (n - 55)
      else None)"

definition number_of_digits :: "nat \<Rightarrow> nat list \<Rightarrow> nat" where
  "number_of_digits base ds = foldl (\<lambda>a d. a * base + d) 0 ds"

text \<open>
  \<^verbatim>\<open>int(s, 10)\<close> on a string of ASCII digits, as \<^verbatim>\<open>_check_firmware\<close> calls it on
  the digits it has filtered out of a fragment: the empty string raises
  \<^verbatim>\<open>ValueError\<close>. (The interpreter's limit on the length of the digit string
  is not modelled.)
\<close>

definition py_int10 :: "string \<Rightarrow> exn + int" where
  "py_int10 s =
     (if s = [] \<or> \<not> list_all isdigit s then Inl ValueError
      else Inr (int (number_of_digits 10 (map digit_value s))))"

definition is_space :: "char \<Rightarrow> bool" where
  "is_space c = (of_char c \<in> set [9, 10, 11, 12, 13, 28, 29, 30, 31, 32 :: nat])"

definition strip :: "string \<Rightarrow> string" where
  "strip s = rev (dropWhile is_space (rev (dropWhile is_space s)))"

text \<open>
  The digits of a literal: groups of hexadecimal digits separated by single
  underscores.
\<close>

definition hex_digits :: "string \<Rightarrow> nat option" where
  "hex_digits s =
     (let groups = split_on (CHR ''_'') s in
      if list_all (\<lambda>g. g \<noteq> [] \<and> list_all (\<lambda>c. hex_value c \<noteq> None) g) groups
      then Some (number_of_digits 16 (map (\<lambda>c. the (hex_value c)) (concat groups)))
      else None)"

text \<open>
  \<^verbatim>\<open>int(s, 16)\<close>: surrounding white space, an optional sign, an optional
  \<^verbatim>\<open>0x\<close> prefix, hexadecimal digits.
\<close>

definition py_int16 :: "string \<Rightarrow> exn + int" where
  "py_int16 s =
     (let t = strip s;
          neg = startswith t ''-'';
          u = (if startswith t ''-'' \<or> startswith t ''+'' then tl t else t);
          body = (if startswith u ''0x'' \<or> startswith u ''0X''
                  then (if startswith (drop 2 u) ''_'' then drop 3 u else drop 2 u)
                  else u)
      in case hex_digits body of
           None \<Rightarrow> Inl ValueError
         | Some n \<Rightarrow> Inr (if neg then - int n else int n))"

text \<open>\<^verbatim>\<open>xs[1]\<close>\<close>

definition second :: "'a list \<Rightarrow> exn + 'a" where
  "second xs = (case xs of a # b # rest \<Rightarrow> Inr b | _ \<Rightarrow> Inl IndexError)"

section \<open>The scanner adapter's records (\<^verbatim>\<open>binwalkInterface.py\<close>)\<close>

text \<open>
  \<^verbatim>\<open>ExtractedFile\<close> and \<^verbatim>\<open>DetectedFile\<close>. The field \<^verbatim>\<open>confidence\<close> (a float
  that \<^verbatim>\<open>extractor.py\<close> never reads) is left out; \<^verbatim>\<open>size\<close> and \<^verbatim>\<open>id\<close> are
  renamed.
\<close>

record ExtractedFile =
  ef_size :: int
  success :: bool
  extractor_name :: string
  outputDir :: path

record DetectedFile =
  offset :: int
  ident :: string
  df_size :: int
  description :: string
  extractionDetails :: "ExtractedFile option"

definition headerSignatures :: "string list" where
  "headerSignatures = [''binhdr'', ''chk'', ''dlob'', ''jboot_arm'', ''jboot_sch2'',
     ''jboot_stag'', ''luks'', ''packimg'', ''rtk'', ''seama'', ''tplink'']"

definition kernelSignatures :: "string list" where
  "kernelSignatures = [''linux_arm64_boot_image'', ''linux_boot_image'', ''linux_kernel'',
     ''wind_kernel'']"

definition rootfsSignatures :: "string list" where
  "rootfsSignatures = [''cramfs'', ''ext'', ''fat'', ''jffs2'', ''romfs'', ''yaffs'', ''apfs'',
     ''squashfs'', ''btrfs'']"

definition ubiSignatures :: "string list" where
  "ubiSignatures = [''ubi'', ''ubifs'']"

definition compressedSignatures :: "string list" where
  "compressedSignatures = [''zstd'', ''zlib'', ''xz'', ''gzip'', ''bzip2'', ''lzop'', ''lzma'',
     ''lzfse'', ''lz4'', ''compressd'']"

definition archiveSignatures :: "string list" where
  "archiveSignatures = [''zip'', ''rar'', ''tarball'', ''cab'', ''cpio'', ''7zip'']"

section \<open>The state: the shared \<^verbatim>\<open>Extractor\<close> object and the file system\<close>

text \<open>
  What \<^verbatim>\<open>os.stat\<close> finds at a path: a regular file with its contents, or
  something that is not a regular file (a directory, a device, a pipe).
\<close>

datatype fent = Reg bytes | NonReg

text \<open>
  The effects a run leaves behind, in the order they happen: a call of
  \<^verbatim>\<open>runBinwalk\<close> (file, include list, extract flag), the construction of an
  \<^verbatim>\<open>ExtractionItem\<close> (path, depth, tag), the entry of an item into its cascade
  (its checksum), and a stack trace printed by \<^verbatim>\<open>traceback.print_exc\<close>.
\<close>

datatype event =
    Scan path "string list" bool
  | NewItem path nat string
  | Cascade string
  | Traceback exn

text \<open>
  The attributes of the \<^verbatim>\<open>Extractor\<close> that items read and write (\<open>output_dir\<close>,
  \<open>do_kernel\<close>, \<open>do_rootfs\<close>, \<open>visited\<close>), the files at each path, the number of
  temporary names handed out so far, and the trace. The metadata database is not
  modelled: \<^verbatim>\<open>Extractor.database\<close> is \<^verbatim>\<open>None\<close> (the default), which makes
  \<^verbatim>\<open>update_database\<close> a no-op and \<^verbatim>\<open>generate_tag\<close> return its basename form.
  Messages printed by \<^verbatim>\<open>printf\<close> are not recorded.
\<close>

record world =
  output_dir :: "path option"
  do_kernel :: bool
  do_rootfs :: bool
  visited :: "string set"
  fs :: "path \<Rightarrow> fent option"
  tmp_count :: nat
  trace :: "event list"

text \<open>
  What the code asks of its surroundings, as parameters: the MD5 digest, the
  scanner (the container run and log parsing of \<^verbatim>\<open>runBinwalk\<close>, including the
  access checks of \<^verbatim>\<open>checkFile\<close> and \<^verbatim>\<open>checkOutputDirectory\<close>; it answers for a
  path, the file's contents, an include list, the extract flag and an output
  directory, and may raise \<^verbatim>\<open>RuntimeError\<close>), the directory tree found at a path
  (\<open>None\<close>: nothing there), libmagic (path and mime flag), the names
  \<^verbatim>\<open>tempfile\<close> hands out, the D-Link decryption command (\<open>None\<close>: it wrote
  nothing) and the archive \<^verbatim>\<open>shutil.make_archive\<close> builds of a directory. The
  files a scan extracts are taken to be in \<open>fs\<close> already.
\<close>

record env =
  md5 :: "bytes \<Rightarrow> string"
  binwalk :: "path \<Rightarrow> bytes \<Rightarrow> string list \<Rightarrow> bool \<Rightarrow> path \<Rightarrow> exn + DetectedFile list"
  tree :: "path \<Rightarrow> node option"
  magic :: "path \<Rightarrow> bool \<Rightarrow> exn + string"
  tmpname :: "nat \<Rightarrow> string"
  decrypt :: "bytes \<Rightarrow> bytes option"
  tar_gz :: "path \<Rightarrow> bytes"

definition log_event :: "event \<Rightarrow> world \<Rightarrow> world" where
  "log_event e w = w\<lparr>trace := trace w @ [e]\<rparr>"

definition isfile :: "world \<Rightarrow> path \<Rightarrow> bool" where
  "isfile w p = (case fs w p of Some (Reg b) \<Rightarrow> True | _ \<Rightarrow> False)"

definition getsize :: "world \<Rightarrow> path \<Rightarrow> exn + int" where
  "getsize w p =
     (case fs w p of
        None \<Rightarrow> Inl FileNotFoundError
      | Some NonReg \<Rightarrow> Inr 0
      | Some (Reg b) \<Rightarrow> Inr (int (length b)))"

text \<open>\<^verbatim>\<open>runBinwalk\<close>: nothing is scanned unless the path is a regular file.\<close>

definition runBinwalk ::
  "env \<Rightarrow> path \<Rightarrow> bool \<Rightarrow> string list \<Rightarrow> path \<Rightarrow> world
     \<Rightarrow> (exn + DetectedFile list) \<times> world" where
  "runBinwalk E filePath extract includeSignatures outputDirectory w =
     (let w1 = log_event (Scan filePath includeSignatures extract) w in
      case fs w filePath of
        Some (Reg b) \<Rightarrow> (binwalk E filePath b includeSignatures extract outputDirectory, w1)
      | _ \<Rightarrow> (Inr [], w1))"

text \<open>\<^verbatim>\<open>tempfile.mkdtemp()\<close>\<close>

definition mkdtemp :: "env \<Rightarrow> world \<Rightarrow> path \<times> world" where
  "mkdtemp E w = (tmpname E (tmp_count w), w\<lparr>tmp_count := Suc (tmp_count w)\<rparr>)"

text \<open>\<^verbatim>\<open>tempfile.mkstemp(dir=d)\<close>: a fresh, empty file in \<open>d\<close>.\<close>

definition mkstemp :: "env \<Rightarrow> path \<Rightarrow> world \<Rightarrow> path \<times> world" where
  "mkstemp E d w =
     (let p = os_path_join d (tmpname E (tmp_count w))
      in (p, w\<lparr>tmp_count := Suc (tmp_count w), fs := (fs w)(p \<mapsto> Reg [])\<rparr>))"

text \<open>
  \<^verbatim>\<open>Extractor.io_dd\<close>. Size 0 returns at once. Otherwise both files are opened
  (the output is truncated), \<^verbatim>\<open>seek\<close> refuses a negative offset, and
  \<^verbatim>\<open>read(size)\<close> with a negative size reads to the end of the file.
\<close>

definition io_dd :: "path \<Rightarrow> int \<Rightarrow> int \<Rightarrow> path \<Rightarrow> world \<Rightarrow> (exn + unit) \<times> world" where
  "io_dd indir off sz outdir w =
     (if sz = 0 then (Inr (), w)
      else case fs w indir of
             None \<Rightarrow> (Inl FileNotFoundError, w)
           | Some NonReg \<Rightarrow> (Inl IsADirectoryError, w)
           | Some (Reg b) \<Rightarrow>
               if off < 0 then (Inl OSError, w\<lparr>fs := (fs w)(outdir \<mapsto> Reg [])\<rparr>)
               else
                 (let rest = drop (nat off) b;
                      got = (if sz < 0 then rest else take (nat sz) rest)
                  in (Inr (), w\<lparr>fs := (fs w)(outdir \<mapsto> Reg got)\<rparr>)))"

text \<open>\<^verbatim>\<open>shutil.copy(src, dst)\<close>\<close>

definition shutil_copy :: "path \<Rightarrow> path \<Rightarrow> world \<Rightarrow> (exn + unit) \<times> world" where
  "shutil_copy src dst w =
     (case fs w src of
        None \<Rightarrow> (Inl FileNotFoundError, w)
      | Some NonReg \<Rightarrow> (Inl IsADirectoryError, w)
      | Some (Reg b) \<Rightarrow> (Inr (), w\<lparr>fs := (fs w)(dst \<mapsto> Reg b)\<rparr>))"

text \<open>\<^verbatim>\<open>shutil.make_archive(base, "gztar", root_dir=d)\<close> writes \<^verbatim>\<open>base.tar.gz\<close>.\<close>

definition make_archive :: "env \<Rightarrow> path \<Rightarrow> path \<Rightarrow> world \<Rightarrow> world" where
  "make_archive E base root_dir w =
     w\<lparr>fs := (fs w)(base @ ''.tar.gz'' \<mapsto> Reg (tar_gz E root_dir))\<rparr>"

text \<open>
  \<^verbatim>\<open>Extractor.io_md5\<close>: the digest of the contents of a regular file, of the
  path itself for anything else; \<^verbatim>\<open>os.stat\<close> raises when nothing is there.
\<close>

definition io_md5 :: "env \<Rightarrow> path \<Rightarrow> world \<Rightarrow> exn + string" where
  "io_md5 E target w =
     (case fs w target of
        None \<Rightarrow> Inl FileNotFoundError
      | Some NonReg \<Rightarrow> Inr (md5 E target)
      | Some (Reg b) \<Rightarrow> Inr (md5 E b))"

text \<open>\<^verbatim>\<open>Extractor.io_find_rootfs\<close> on a path.\<close>

definition find_rootfs_at :: "env \<Rightarrow> path \<Rightarrow> exn + bool \<times> path" where
  "find_rootfs_at E start =
     (case tree E start of
        None \<Rightarrow> Inl FileNotFoundError
      | Some d \<Rightarrow> io_find_rootfs start d True)"

text \<open>
  \<^verbatim>\<open>os.walk(root)\<close>, top-down: each directory with the names of its entries that
  are not directories. Nothing is yielded for a path that is not a directory.
\<close>

fun walk :: "path \<Rightarrow> node \<Rightarrow> (path \<times> string list) list" where
  "walk root File = []"
| "walk root (Dir es) =
     (root, map fst (filter (\<lambda>e. \<not> is_dir (snd e)) es))
       # concat (map (\<lambda>e. walk (os_path_join root (fst e)) (snd e))
                     (filter (\<lambda>e. is_dir (snd e)) es))"

definition os_walk :: "env \<Rightarrow> path \<Rightarrow> (path \<times> string list) list" where
  "os_walk E root = (case tree E root of None \<Rightarrow> [] | Some d \<Rightarrow> walk root d)"

section \<open>\<^verbatim>\<open>ExtractionItem\<close>\<close>

definition RECURSION_BREADTH :: nat where
  "RECURSION_BREADTH = 5"

definition RECURSION_DEPTH :: nat where
  "RECURSION_DEPTH = 3"

text \<open>
  The attributes of an item. \<open>item_path\<close> is \<^verbatim>\<open>self.item\<close>, \<open>item_output\<close> is \<^verbatim>\<open>self.output\<close>; \<open>status\<close> is the
  pair \<^verbatim>\<open>(kernel_done, rootfs_done)\<close>.
\<close>

record item =
  item_path :: path
  depth :: nat
  tag :: string
  checksum :: string
  temp :: "path option"
  item_output :: "path option"
  terminate :: bool
  status :: "bool \<times> bool"

text \<open>The dictionary \<^verbatim>\<open>extract\<close> returns.\<close>

record result =
  r_status :: bool
  r_tag :: string
  kernelDone :: bool
  rootfsDone :: bool
  kernelPath :: "path option"
  rootfsPath :: "path option"

text \<open>
  What a stage returns: a boolean, or (from the uImage branch of
  \<^verbatim>\<open>_check_firmware\<close>) the dictionary of a child. A dictionary with entries is
  true in a condition.
\<close>

datatype pyval = PBool bool | PDict result

fun truthy :: "pyval \<Rightarrow> bool" where
  "truthy (PBool b) = b"
| "truthy (PDict r) = True"

text \<open>\<^verbatim>\<open>if p\<close> for a path that may be \<^verbatim>\<open>None\<close>.\<close>

definition truthy_path :: "path option \<Rightarrow> bool" where
  "truthy_path p = (case p of None \<Rightarrow> False | Some s \<Rightarrow> s \<noteq> [])"

definition get_kernel_status :: "item \<Rightarrow> bool" where
  "get_kernel_status self = fst (status self)"

definition get_rootfs_status :: "item \<Rightarrow> bool" where
  "get_rootfs_status self = snd (status self)"

definition get_status :: "item \<Rightarrow> bool" where
  "get_status self = (if terminate self \<or> (fst (status self) \<and> snd (status self)) then True else False)"

definition get_kernel_path :: "item \<Rightarrow> path option" where
  "get_kernel_path self =
     (case item_output self of
        None \<Rightarrow> None
      | Some out \<Rightarrow> if out \<noteq> [] then Some (out @ ''.kernel'') else None)"

definition get_rootfs_path :: "item \<Rightarrow> path option" where
  "get_rootfs_path self =
     (case item_output self of
        None \<Rightarrow> None
      | Some out \<Rightarrow> if out \<noteq> [] then Some (out @ ''.tar.gz'') else None)"

text \<open>
  \<^verbatim>\<open>update_status\<close> sets \<open>status\<close> from the output files and the extractor's
  flags; its return value is \<open>get_status\<close> of the updated item.
\<close>

definition update_status :: "item \<Rightarrow> world \<Rightarrow> item" where
  "update_status self w =
     (let kernel_done =
            (if do_kernel w \<and> truthy_path (item_output self)
             then (case get_kernel_path self of Some kp \<Rightarrow> isfile w kp | None \<Rightarrow> False)
             else \<not> do_kernel w);
          rootfs_done =
            (if do_rootfs w \<and> truthy_path (item_output self)
             then (case get_rootfs_path self of Some rp \<Rightarrow> isfile w rp | None \<Rightarrow> False)
             else \<not> do_rootfs w)
      in self\<lparr>status := (kernel_done, rootfs_done)\<rparr>)"

definition generate_tag :: "path \<Rightarrow> string \<Rightarrow> string" where
  "generate_tag p c = basename p @ ''_'' @ c"

text \<open>
  The constructor \<^verbatim>\<open>ExtractionItem(extractor, path, depth, tag)\<close>. An absent or
  empty tag is generated.
\<close>

definition new_ExtractionItem ::
  "env \<Rightarrow> path \<Rightarrow> nat \<Rightarrow> string option \<Rightarrow> world \<Rightarrow> (exn + item) \<times> world" where
  "new_ExtractionItem E p d tg w =
     (case io_md5 E p w of
        Inl e \<Rightarrow> (Inl e, w)
      | Inr c \<Rightarrow>
          (let t = (case tg of
                      None \<Rightarrow> generate_tag p c
                    | Some t' \<Rightarrow> if t' \<noteq> [] then t' else generate_tag p c);
               out = (case output_dir w of
                        None \<Rightarrow> None
                      | Some od \<Rightarrow> if od \<noteq> [] then Some (os_path_join od t) else None);
               self = \<lparr>item_path = p, depth = d, tag = t, checksum = c, temp = None,
                       item_output = out, terminate = False, status = (False, False)\<rparr>
           in (Inr (update_status self w), log_event (NewItem p d t) w)))"

definition result_of :: "bool \<Rightarrow> item \<Rightarrow> result" where
  "result_of st self =
     \<lparr>r_status = st, r_tag = tag self, kernelDone = get_kernel_status self,
      rootfsDone = get_rootfs_status self, kernelPath = get_kernel_path self,
      rootfsPath = get_rootfs_path self\<rparr>"

subsection \<open>Stages without children\<close>

definition check_blacklist :: "env \<Rightarrow> item \<Rightarrow> exn + bool" where
  "check_blacklist E self =
     (case magic E (item_path self) True of
        Inl e \<Rightarrow> Inl e
      | Inr filetype \<Rightarrow>
          if list_ex (\<lambda>s. contains s filetype)
               [''application/x-executable'', ''application/x-dosexec'',
                ''application/x-object'', ''application/pdf'', ''application/msword'',
                ''image/'', ''text/'', ''video/'']
          then Inr True
          else
            (case magic E (item_path self) False of
               Inl e \<Rightarrow> Inl e
             | Inr filetype2 \<Rightarrow>
                 if list_ex (\<lambda>s. contains s filetype2)
                      [''executable'', ''universal binary'', ''relocatable'', ''bytecode'',
                       ''applet'']
                 then Inr True
                 else if endswith (item_path self) ''.dmg'' then Inr True
                 else Inr False))"

text \<open>
  \<^verbatim>\<open>_check_encryption\<close>: the first four bytes are read; for \<^verbatim>\<open>SHRS\<close> the
  decryption command is run with \<^verbatim>\<open>temp/dlink_decrypt\<close> as its output.
\<close>

definition check_encryption :: "env \<Rightarrow> item \<Rightarrow> world \<Rightarrow> (exn + pyval) \<times> item \<times> world" where
  "check_encryption E self w =
     (case fs w (item_path self) of
        None \<Rightarrow> (Inl FileNotFoundError, self, w)
      | Some NonReg \<Rightarrow> (Inl IsADirectoryError, self, w)
      | Some (Reg b) \<Rightarrow>
          if take 4 b = ''SHRS'' then
            (case temp self of
               None \<Rightarrow> (Inl TypeError, self, w)
             | Some t \<Rightarrow>
                 (case decrypt E b of
                    None \<Rightarrow> (Inr (PBool True), self, w)
                  | Some plain \<Rightarrow>
                      (Inr (PBool True), self,
                       w\<lparr>fs := (fs w)(os_path_join t ''dlink_decrypt'' \<mapsto> Reg plain)\<rparr>)))
          else (Inr (PBool False), self, w))"

text \<open>
  \<^verbatim>\<open>_check_kernel\<close>. The loop over the scanner's artifacts returns in every
  branch of its body, so it is a case distinction on the first artifact.
\<close>

definition check_kernel :: "env \<Rightarrow> item \<Rightarrow> world \<Rightarrow> (exn + pyval) \<times> item \<times> world" where
  "check_kernel E self w =
     (if \<not> get_kernel_status self then
        (case runBinwalk E (item_path self) False kernelSignatures [] w of
           (Inl e, w1) \<Rightarrow> (Inl e, self, w1)
         | (Inr entries, w1) \<Rightarrow>
             (case entries of
                [] \<Rightarrow> (Inr (PBool False), self, w1)
              | entry # later \<Rightarrow>
                  if contains ''kernel version'' (description entry)
                     \<or> contains ''Linux version'' (description entry) then
                    (if contains ''Linux'' (description entry) then
                       (case get_kernel_path self of
                          Some kernel_path \<Rightarrow>
                            (case shutil_copy (item_path self) kernel_path w1 of
                               (Inl e, w2) \<Rightarrow> (Inl e, self, w2)
                             | (Inr u, w2) \<Rightarrow> (Inr (PBool True), self, w2))
                        | None \<Rightarrow> (Inr (PBool True), self, w1\<lparr>do_kernel := False\<rparr>))
                     else (Inr (PBool False), self, w1))
                  else (Inr (PBool False), self, w1)))
      else (Inr (PBool False), self, w))"

text \<open>\<^verbatim>\<open>str(self.temp)\<close>\<close>

definition str_temp :: "item \<Rightarrow> path" where
  "str_temp self = (case temp self of None \<Rightarrow> ''None'' | Some t \<Rightarrow> t)"

text \<open>
  What both \<^verbatim>\<open>_check_rootfs\<close> and \<^verbatim>\<open>_check_recursive\<close> do with a directory that
  \<^verbatim>\<open>io_find_rootfs\<close> accepts.
\<close>

definition emit_rootfs :: "env \<Rightarrow> item \<Rightarrow> path \<Rightarrow> world \<Rightarrow> world" where
  "emit_rootfs E self root_dir w =
     (case item_output self of
        None \<Rightarrow> w\<lparr>do_rootfs := False\<rparr>
      | Some out \<Rightarrow> if out \<noteq> [] then make_archive E out root_dir w else w\<lparr>do_rootfs := False\<rparr>)"

fun rootfs_entries ::
  "env \<Rightarrow> DetectedFile list \<Rightarrow> item \<Rightarrow> world \<Rightarrow> (exn + pyval) \<times> item \<times> world" where
  "rootfs_entries E [] self w = (Inr (PBool False), self, w)"
| "rootfs_entries E (entry # rest) self w =
     (case extractionDetails entry of
        None \<Rightarrow> rootfs_entries E rest self w
      | Some d \<Rightarrow>
          if success d then
            (case find_rootfs_at E (outputDir d) of
               Inl e \<Rightarrow> (Inl e, self, w)
             | Inr unix \<Rightarrow>
                 if \<not> fst unix then (Inr (PBool False), self, w)
                 else (Inr (PBool True), self, emit_rootfs E self (snd unix) w))
          else rootfs_entries E rest self w)"

definition check_rootfs :: "env \<Rightarrow> item \<Rightarrow> world \<Rightarrow> (exn + pyval) \<times> item \<times> world" where
  "check_rootfs E self w =
     (if \<not> get_rootfs_status self then
        (case runBinwalk E (item_path self) True (ubiSignatures @ rootfsSignatures)
                (str_temp self) w of
           (Inl e, w1) \<Rightarrow> (Inl e, self, w1)
         | (Inr entries, w1) \<Rightarrow> rootfs_entries E entries self w1)
      else (Inr (PBool False), self, w))"

subsection \<open>Stages that extract children\<close>

text \<open>
  These stages construct child items and call \<^verbatim>\<open>extract\<close> on them. The call is
  the parameter \<open>ex\<close>; \<open>None\<close> stands for a call that does not return. A loop
  body either returns from the method or lets the loop go on.
\<close>

type_synonym child_call = "item \<Rightarrow> world \<Rightarrow> ((exn + result) \<times> world) option"

datatype ('r, 's) flow = Return 'r | Continue 's

text \<open>
  The pattern that \<^verbatim>\<open>_check_firmware\<close> repeats three times: a temporary file
  from \<^verbatim>\<open>mkstemp\<close>, \<^verbatim>\<open>io_dd\<close> into it, a child item on it at the same depth
  and with the same tag, and \<^verbatim>\<open>extract\<close> on the child.
\<close>

definition carve_and_extract ::
  "env \<Rightarrow> child_call \<Rightarrow> int \<Rightarrow> int \<Rightarrow> item \<Rightarrow> world \<Rightarrow> ((exn + result) \<times> world) option" where
  "carve_and_extract E ex off sz self w =
     (case mkstemp E (case temp self of None \<Rightarrow> ''/tmp'' | Some t \<Rightarrow> t) w of
        (tmp_path, w1) \<Rightarrow>
          (case io_dd (item_path self) off sz tmp_path w1 of
             (Inl e, w2) \<Rightarrow> Some (Inl e, w2)
           | (Inr u, w2) \<Rightarrow>
               (case new_ExtractionItem E tmp_path (depth self) (Some (tag self)) w2 of
                  (Inl e, w3) \<Rightarrow> Some (Inl e, w3)
                | (Inr child, w3) \<Rightarrow> ex child w3)))"

text \<open>
  The loop over the fragments of a uImage description: every fragment that
  contains \<^verbatim>\<open>image size:\<close> sets \<^verbatim>\<open>kernel_size\<close> to the number its digits spell.
\<close>

fun parse_image_size :: "string list \<Rightarrow> int \<Rightarrow> exn + int" where
  "parse_image_size [] kernel_size = Inr kernel_size"
| "parse_image_size (stmt # rest) kernel_size =
     (if contains ''image size:'' stmt then
        (case py_int10 (filter isdigit stmt) of
           Inl e \<Rightarrow> Inl e
         | Inr v \<Rightarrow> parse_image_size rest v)
      else parse_image_size rest kernel_size)"

definition uimage_entry ::
  "env \<Rightarrow> child_call \<Rightarrow> DetectedFile \<Rightarrow> item \<Rightarrow> world
     \<Rightarrow> ((exn + (pyval, unit) flow) \<times> item \<times> world) option" where
  "uimage_entry E ex entry self w =
     (if \<not> get_kernel_status self \<and> contains ''OS Kernel Image'' (description entry) then
        (let kernel_offset = offset entry + 64 in
         case parse_image_size (split_on (CHR '','') (description entry)) 0 of
           Inl e \<Rightarrow> Some (Inl e, self, w)
         | Inr kernel_size \<Rightarrow>
             if kernel_size \<noteq> 0 then
               (case getsize w (item_path self) of
                  Inl e \<Rightarrow> Some (Inl e, self, w)
                | Inr file_size \<Rightarrow>
                    if kernel_offset + kernel_size \<le> file_size then
                      (case carve_and_extract E ex kernel_offset kernel_size self w of
                         None \<Rightarrow> None
                       | Some (Inl e, w1) \<Rightarrow> Some (Inl e, self, w1)
                       | Some (Inr r, w1) \<Rightarrow> Some (Inr (Return (PDict r)), self, w1))
                    else Some (Inr (Continue ()), self, w))
             else Some (Inr (Continue ()), self, w))
      else Some (Inr (Continue ()), self, w))"

text \<open>\<^verbatim>\<open>int(stmt.split(':')[1], 16)\<close>\<close>

definition hex_field :: "string \<Rightarrow> exn + int" where
  "hex_field stmt =
     (case second (split_on (CHR '':'') stmt) of
        Inl e \<Rightarrow> Inl e
      | Inr f \<Rightarrow> py_int16 f)"

text \<open>
  The loop over the fragments of a TP-Link or TRX description; the state is
  \<^verbatim>\<open>(kernel_offset, kernel_size, rootfs_offset, rootfs_size)\<close>.
\<close>

fun parse_tplink :: "string list \<Rightarrow> int \<times> int \<times> int \<times> int \<Rightarrow> exn + int \<times> int \<times> int \<times> int" where
  "parse_tplink [] acc = Inr acc"
| "parse_tplink (stmt # rest) (kernel_offset, kernel_size, rootfs_offset, rootfs_size) =
     (if contains ''kernel offset:'' stmt then
        (case hex_field stmt of
           Inl e \<Rightarrow> Inl e
         | Inr v \<Rightarrow> parse_tplink rest (v, kernel_size, rootfs_offset, rootfs_size))
      else if contains ''kernel length:'' stmt then
        (case hex_field stmt of
           Inl e \<Rightarrow> Inl e
         | Inr v \<Rightarrow> parse_tplink rest (kernel_offset, v, rootfs_offset, rootfs_size))
      else if contains ''rootfs offset:'' stmt then
        (case hex_field stmt of
           Inl e \<Rightarrow> Inl e
         | Inr v \<Rightarrow> parse_tplink rest (kernel_offset, kernel_size, v, rootfs_size))
      else if contains ''rootfs length:'' stmt then
        (case hex_field stmt of
           Inl e \<Rightarrow> Inl e
         | Inr v \<Rightarrow> parse_tplink rest (kernel_offset, kernel_size, rootfs_offset, v))
      else parse_tplink rest (kernel_offset, kernel_size, rootfs_offset, rootfs_size))"

text \<open>
  The step commented "compute sizes if only offsets provided", as the code has it:
  its first test compares \<^verbatim>\<open>kernel_offset\<close> with \<^verbatim>\<open>rootfs_size\<close>.
\<close>

definition tplink_sizes ::
  "int \<times> int \<times> int \<times> int \<Rightarrow> world \<Rightarrow> path \<Rightarrow> exn + int \<times> int \<times> int \<times> int" where
  "tplink_sizes f w p =
     (case f of (kernel_offset, kernel_size, rootfs_offset, rootfs_size) \<Rightarrow>
        if kernel_offset \<noteq> rootfs_size \<and> kernel_size = 0 \<and> rootfs_size = 0 then
          (case getsize w p of
             Inl e \<Rightarrow> Inl e
           | Inr file_size \<Rightarrow>
               Inr (kernel_offset, rootfs_offset - kernel_offset, rootfs_offset,
                    file_size - rootfs_offset))
        else Inr f)"

text \<open>
  The condition commented "ensure that computed values are sensible"; the
  conjunctions evaluate \<^verbatim>\<open>os.path.getsize\<close> only when they reach it.
\<close>

definition tplink_sensible :: "int \<times> int \<times> int \<times> int \<Rightarrow> world \<Rightarrow> path \<Rightarrow> exn + bool" where
  "tplink_sensible f w p =
     (case f of (kernel_offset, kernel_size, rootfs_offset, rootfs_size) \<Rightarrow>
        if kernel_size > 0 then
          (case getsize w p of
             Inl e \<Rightarrow> Inl e
           | Inr file_size \<Rightarrow>
               if kernel_offset + kernel_size \<le> file_size then
                 (if rootfs_size \<noteq> 0 then Inr (rootfs_offset + rootfs_size \<le> file_size)
                  else Inr False)
               else Inr False)
        else Inr False)"

definition tplink_entry ::
  "env \<Rightarrow> child_call \<Rightarrow> DetectedFile \<Rightarrow> item \<Rightarrow> world
     \<Rightarrow> ((exn + (pyval, unit) flow) \<times> item \<times> world) option" where
  "tplink_entry E ex entry self w =
     (case parse_tplink (split_on (CHR '','') (description entry)) (0, 0, 0, 0) of
        Inl e \<Rightarrow> Some (Inl e, self, w)
      | Inr parsed \<Rightarrow>
          (case tplink_sizes parsed w (item_path self) of
             Inl e \<Rightarrow> Some (Inl e, self, w)
           | Inr (kernel_offset, kernel_size, rootfs_offset, rootfs_size) \<Rightarrow>
               (case tplink_sensible (kernel_offset, kernel_size, rootfs_offset, rootfs_size)
                       w (item_path self) of
                  Inl e \<Rightarrow> Some (Inl e, self, w)
                | Inr False \<Rightarrow> Some (Inr (Continue ()), self, w)
                | Inr True \<Rightarrow>
                    (case carve_and_extract E ex kernel_offset kernel_size self w of
                       None \<Rightarrow> None
                     | Some (Inl e, w1) \<Rightarrow> Some (Inl e, self, w1)
                     | Some (Inr kr, w1) \<Rightarrow>
                         (case carve_and_extract E ex rootfs_offset rootfs_size self w1 of
                            None \<Rightarrow> None
                          | Some (Inl e, w2) \<Rightarrow> Some (Inl e, self, w2)
                          | Some (Inr rr, w2) \<Rightarrow>
                              (let self' = update_status self w2
                               in Some (Inr (Return (PBool (get_status self'))), self', w2)))))))"

fun firmware_entries ::
  "env \<Rightarrow> child_call \<Rightarrow> DetectedFile list \<Rightarrow> item \<Rightarrow> world
     \<Rightarrow> ((exn + pyval) \<times> item \<times> world) option" where
  "firmware_entries E ex [] self w = Some (Inr (PBool False), self, w)"
| "firmware_entries E ex (entry # rest) self w =
     (case
        (if contains ''uImage header'' (description entry) then uimage_entry E ex entry self w
         else if \<not> get_kernel_status self \<and> \<not> get_rootfs_status self
                 \<and> contains ''rootfs offset: '' (description entry)
                 \<and> contains ''kernel offset: '' (description entry)
              then tplink_entry E ex entry self w
         else Some (Inr (Continue ()), self, w))
      of
        None \<Rightarrow> None
      | Some (Inl e, self1, w1) \<Rightarrow> Some (Inl e, self1, w1)
      | Some (Inr (Return v), self1, w1) \<Rightarrow> Some (Inr v, self1, w1)
      | Some (Inr (Continue u), self1, w1) \<Rightarrow> firmware_entries E ex rest self1 w1)"

definition check_firmware ::
  "env \<Rightarrow> child_call \<Rightarrow> item \<Rightarrow> world \<Rightarrow> ((exn + pyval) \<times> item \<times> world) option" where
  "check_firmware E ex self w =
     (case runBinwalk E (item_path self) False headerSignatures [] w of
        (Inl e, w1) \<Rightarrow> Some (Inl e, self, w1)
      | (Inr entries, w1) \<Rightarrow> firmware_entries E ex entries self w1)"

text \<open>
  The order in which \<^verbatim>\<open>_check_recursive\<close> visits the files of one directory:
  sorted, then sorted stably by length, then the restored original file name
  (the text between the first two double quotes of the last fragment that
  mentions it) moved to the front.
\<close>

fun find_orig :: "string list \<Rightarrow> string option \<Rightarrow> exn + string option" where
  "find_orig [] orig = Inr orig"
| "find_orig (stmt # rest) orig =
     (if contains ''original file name:'' stmt then
        (case second (split_on (CHR 0x22) stmt) of
           Inl e \<Rightarrow> Inl e
         | Inr name \<Rightarrow> find_orig rest (Some name))
      else find_orig rest orig)"

definition order_files :: "string \<Rightarrow> string list \<Rightarrow> exn + string list" where
  "order_files desc files =
     (let sorted = sort_key length (sort files) in
      if contains ''original file name:'' desc then
        (case find_orig (split_on (CHR '','') desc) None of
           Inl e \<Rightarrow> Inl e
         | Inr None \<Rightarrow> Inr sorted
         | Inr (Some orig) \<Rightarrow>
             if orig \<noteq> [] \<and> orig \<in> set sorted then Inr (orig # remove1 orig sorted)
             else Inr sorted)
      else Inr sorted)"

text \<open>
  The loop over the files of one directory. The counter is tested before each
  file and incremented after it.
\<close>

fun visit_files ::
  "env \<Rightarrow> child_call \<Rightarrow> path \<Rightarrow> string list \<Rightarrow> nat \<Rightarrow> item \<Rightarrow> world
     \<Rightarrow> ((exn + (bool, nat) flow) \<times> item \<times> world) option" where
  "visit_files E ex root [] count self w = Some (Inr (Continue count), self, w)"
| "visit_files E ex root (filename # rest) count self w =
     (if count > RECURSION_BREADTH then
        Some (Inr (Return True), self\<lparr>terminate := True\<rparr>, w)
      else
        (case new_ExtractionItem E (os_path_join root filename) (depth self + 1)
                (Some (tag self)) w of
           (Inl e, w1) \<Rightarrow> Some (Inl e, self, w1)
         | (Inr new_item, w1) \<Rightarrow>
             (case ex new_item w1 of
                None \<Rightarrow> None
              | Some (Inl e, w2) \<Rightarrow> Some (Inl e, self, w2)
              | Some (Inr r, w2) \<Rightarrow>
                  if r_status r then
                    (let self' = update_status self w2 in
                     if get_status self' then Some (Inr (Return True), self', w2)
                     else visit_files E ex root rest (count + 1) self' w2)
                  else visit_files E ex root rest (count + 1) self w2)))"

text \<open>The loop over \<^verbatim>\<open>os.walk\<close>; the counter runs on from one directory to the next.\<close>

fun walk_loop ::
  "env \<Rightarrow> child_call \<Rightarrow> string \<Rightarrow> (path \<times> string list) list \<Rightarrow> nat \<Rightarrow> item \<Rightarrow> world
     \<Rightarrow> ((exn + (bool, nat) flow) \<times> item \<times> world) option" where
  "walk_loop E ex desc [] count self w = Some (Inr (Continue count), self, w)"
| "walk_loop E ex desc ((root, files) # rest) count self w =
     (case order_files desc files of
        Inl e \<Rightarrow> Some (Inl e, self, w)
      | Inr ordered \<Rightarrow>
          (case visit_files E ex root ordered count self w of
             None \<Rightarrow> None
           | Some (Inl e, self1, w1) \<Rightarrow> Some (Inl e, self1, w1)
           | Some (Inr (Return v), self1, w1) \<Rightarrow> Some (Inr (Return v), self1, w1)
           | Some (Inr (Continue count1), self1, w1) \<Rightarrow>
               walk_loop E ex desc rest count1 self1 w1))"

text \<open>The loop over the scanner's artifacts in \<^verbatim>\<open>_check_recursive\<close>.\<close>

fun recursive_entries ::
  "env \<Rightarrow> child_call \<Rightarrow> DetectedFile list \<Rightarrow> item \<Rightarrow> world
     \<Rightarrow> ((exn + pyval) \<times> item \<times> world) option" where
  "recursive_entries E ex [] self w = Some (Inr (PBool False), self, w)"
| "recursive_entries E ex (entry # rest) self w =
     (case extractionDetails entry of
        None \<Rightarrow> recursive_entries E ex rest self w
      | Some d \<Rightarrow>
          if success d then
            (case find_rootfs_at E (outputDir d) of
               Inl e \<Rightarrow> Some (Inl e, self, w)
             | Inr unix \<Rightarrow>
                 if fst unix then
                   Some (Inr (PBool True), self, emit_rootfs E self (snd unix) w)
                 else
                   (case walk_loop E ex (description entry) (os_walk E (outputDir d)) 0
                           self w of
                      None \<Rightarrow> None
                    | Some (Inl e, self1, w1) \<Rightarrow> Some (Inl e, self1, w1)
                    | Some (Inr (Return v), self1, w1) \<Rightarrow> Some (Inr (PBool v), self1, w1)
                    | Some (Inr (Continue count), self1, w1) \<Rightarrow>
                        recursive_entries E ex rest self1 w1))
          else recursive_entries E ex rest self w)"

definition check_recursive ::
  "env \<Rightarrow> child_call \<Rightarrow> string list \<Rightarrow> item \<Rightarrow> world
     \<Rightarrow> ((exn + pyval) \<times> item \<times> world) option" where
  "check_recursive E ex fmt self w =
     (case runBinwalk E (item_path self) True fmt (str_temp self) w of
        (Inl e, w1) \<Rightarrow> Some (Inl e, self, w1)
      | (Inr entries, w1) \<Rightarrow> recursive_entries E ex entries self w1)"

definition check_archive ::
  "env \<Rightarrow> child_call \<Rightarrow> item \<Rightarrow> world \<Rightarrow> ((exn + pyval) \<times> item \<times> world) option" where
  "check_archive E ex self w = check_recursive E ex archiveSignatures self w"

definition check_compressed ::
  "env \<Rightarrow> child_call \<Rightarrow> item \<Rightarrow> world \<Rightarrow> ((exn + pyval) \<times> item \<times> world) option" where
  "check_compressed E ex self w = check_recursive E ex compressedSignatures self w"

subsection \<open>\<^verbatim>\<open>ExtractionItem.extract\<close>\<close>

text \<open>
  The loop of the \<^verbatim>\<open>try\<close> block over the six analyses. \<open>Return r\<close>: the method
  returned \<open>r\<close> from inside the loop; \<open>Continue ()\<close>: the loop ended.
\<close>

type_synonym stage = "item \<Rightarrow> world \<Rightarrow> ((exn + pyval) \<times> item \<times> world) option"

fun cascade ::
  "stage list \<Rightarrow> item \<Rightarrow> world \<Rightarrow> ((exn + (result, unit) flow) \<times> item \<times> world) option" where
  "cascade [] self w = Some (Inr (Continue ()), self, w)"
| "cascade (analysis # rest) self w =
     (case analysis self w of
        None \<Rightarrow> None
      | Some (Inl e, self1, w1) \<Rightarrow> Some (Inl e, self1, w1)
      | Some (Inr v, self1, w1) \<Rightarrow>
          if truthy v then
            (let self2 = update_status self1 w1 in
             if get_status self2 then Some (Inr (Return (result_of True self2)), self2, w1)
             else cascade rest self2 w1)
          else cascade rest self1 w1)"

definition analyses :: "env \<Rightarrow> child_call \<Rightarrow> stage list" where
  "analyses E ex =
     [check_archive E ex,
      (\<lambda>self w. Some (check_encryption E self w)),
      check_firmware E ex,
      (\<lambda>self w. Some (check_kernel E self w)),
      (\<lambda>self w. Some (check_rootfs E self w)),
      check_compressed E ex]"

text \<open>
  The handler of the \<^verbatim>\<open>try\<close> block and the \<^verbatim>\<open>return\<close> after it: an exception
  out of the cascade is printed with its stack trace, and the method then returns
  the dictionary with \<^verbatim>\<open>"status": False\<close>, as it does when the loop has ended.
\<close>

definition try_except ::
  "((exn + (result, unit) flow) \<times> item \<times> world) option \<Rightarrow> ((exn + result) \<times> world) option" where
  "try_except c =
     (case c of
        None \<Rightarrow> None
      | Some (Inl e, self1, w3) \<Rightarrow>
          Some (Inr (result_of False self1), log_event (Traceback e) w3)
      | Some (Inr (Return r), self1, w3) \<Rightarrow> Some (Inr r, w3)
      | Some (Inr (Continue u), self1, w3) \<Rightarrow> Some (Inr (result_of False self1), w3))"

text \<open>
  \<^verbatim>\<open>extract\<close>, with a bound on the nesting of calls: \<open>item_extract 0\<close> is the call
  that does not return, and each call hands its children one less. The entry
  guards and \<^verbatim>\<open>tempfile.mkdtemp\<close> come before the \<^verbatim>\<open>try\<close> block; only the
  cascade is inside it.
\<close>

primrec item_extract :: "nat \<Rightarrow> env \<Rightarrow> item \<Rightarrow> world \<Rightarrow> ((exn + result) \<times> world) option" where
  "item_extract 0 E self w = None"
| "item_extract (Suc n) E self w =
     (if get_status self then Some (Inr (result_of True self), w)
      else if depth self > RECURSION_DEPTH then
        Some (Inr (result_of (get_status self) self), w)
      else if checksum self \<in> visited w then
        Some (Inr (result_of (get_status self) self), w)
      else
        (let w1 = w\<lparr>visited := insert (checksum self) (visited w)\<rparr> in
         case check_blacklist E self of
           Inl e \<Rightarrow> Some (Inl e, w1)
         | Inr True \<Rightarrow> Some (Inr (result_of (get_status self) self), w1)
         | Inr False \<Rightarrow>
             (case mkdtemp E w1 of
                (tmp, w2) \<Rightarrow>
                  try_except
                    (cascade (analyses E (item_extract n E)) (self\<lparr>temp := Some tmp\<rparr>)
                       (log_event (Cascade (checksum self)) w2)))))"

subsection \<open>The driver, \<^verbatim>\<open>Extractor.extract\<close>, without a worker pool\<close>

text \<open>\<^verbatim>\<open>_extract_item\<close>: a top-level item at depth 0, with a generated tag.\<close>

definition extract_item :: "nat \<Rightarrow> env \<Rightarrow> path \<Rightarrow> world \<Rightarrow> ((exn + result) \<times> world) option" where
  "extract_item n E p w =
     (case new_ExtractionItem E p 0 None w of
        (Inl e, w1) \<Rightarrow> Some (Inl e, w1)
      | (Inr it, w1) \<Rightarrow> item_extract n E it w1)"

text \<open>The serial loop that appends each item's result to \<^verbatim>\<open>results\<close>.\<close>

fun extract_list ::
  "nat \<Rightarrow> env \<Rightarrow> path list \<Rightarrow> result list \<Rightarrow> world \<Rightarrow> ((exn + result list) \<times> world) option" where
  "extract_list n E [] results w = Some (Inr results, w)"
| "extract_list n E (p # rest) results w =
     (case extract_item n E p w of
        None \<Rightarrow> None
      | Some (Inl e, w1) \<Rightarrow> Some (Inl e, w1)
      | Some (Inr res, w1) \<Rightarrow> extract_list n E rest (results @ [res]) w1)"

text \<open>
  The list of inputs: every file below an input directory, the input itself if
  it is a regular file, nothing otherwise.
\<close>

definition input_list :: "env \<Rightarrow> path \<Rightarrow> world \<Rightarrow> path list" where
  "input_list E inp w =
     (case tree E inp of
        Some (Dir es) \<Rightarrow>
          concat (map (\<lambda>(p, files). map (os_path_join p) files) (walk inp (Dir es)))
      | _ \<Rightarrow> if isfile w inp then [inp] else [])"

definition Extractor_extract ::
  "nat \<Rightarrow> env \<Rightarrow> path \<Rightarrow> world \<Rightarrow> ((exn + result list) \<times> world) option" where
  "Extractor_extract n E inp w = extract_list n E (input_list E inp w) [] w"

section \<open>Definitions used to state the properties\<close>

subsection \<open>Root file system recognition, in the words of the specification\<close>

text \<open>
  The number of immediate subdirectories of a directory that carry one of the
  canonical UNIX names.
\<close>

definition canonical_count :: "node \<Rightarrow> nat" where
  "canonical_count cur =
     length (filter (\<lambda>e. fst e \<in> set UNIX_DIRS \<and> is_dir (snd e)) (listdir cur))"

text \<open>A directory whose only entry is a directory: the chain can be descended further.\<close>

fun single_dir_child :: "node \<Rightarrow> bool" where
  "single_dir_child (Dir [(n, Dir sub)]) = True"
| "single_dir_child d = False"

text \<open>\<open>findRootfs\<close> with \<open>recurse = false\<close>: collapse, then count.\<close>

definition findRootfs_flat :: "path \<Rightarrow> node \<Rightarrow> bool \<times> path" where
  "findRootfs_flat start d =
     (case collapse start d of
        (p, cur) \<Rightarrow> if 4 \<le> canonical_count cur then (True, p) else (False, start))"

text \<open>
  \<open>findRootfs\<close> as the specification words it: collapse, accept at four or more
  canonical names, otherwise (when recursing) the first hit among the
  subdirectories, otherwise \<open>(false, originalStart)\<close>.
\<close>

definition findRootfs_spec :: "path \<Rightarrow> node \<Rightarrow> bool \<Rightarrow> bool \<times> path" where
  "findRootfs_spec start d recurse =
     (case collapse start d of
        (p, cur) \<Rightarrow>
          if 4 \<le> canonical_count cur then (True, p)
          else if recurse then
            (case filter fst (map (\<lambda>e. findRootfs_flat (os_path_join p (fst e)) (snd e))
                                (filter (\<lambda>e. is_dir (snd e)) (listdir cur))) of
               [] \<Rightarrow> (False, start)
             | r # rs \<Rightarrow> r)
          else (False, start))"

subsection \<open>Properties of the state that the stages preserve\<close>

text \<open>
  A property of the state that no step of a stage can break: it survives the trace
  entries that scans and item constructions leave, every file being written,
  temporary names being handed out and the flags \<open>do_kernel\<close> and \<open>do_rootfs\<close>
  being cleared.
\<close>

definition frame_stable :: "(world \<Rightarrow> bool) \<Rightarrow> bool" where
  "frame_stable P =
     (\<forall>w. P w \<longrightarrow>
        (\<forall>p s x. P (log_event (Scan p s x) w)) \<and>
        (\<forall>p d t. P (log_event (NewItem p d t) w)) \<and>
        (\<forall>q v. P (w\<lparr>fs := (fs w)(q \<mapsto> v)\<rparr>)) \<and>
        (\<forall>n. P (w\<lparr>tmp_count := n\<rparr>)) \<and>
        P (w\<lparr>do_kernel := False\<rparr>) \<and>
        P (w\<lparr>do_rootfs := False\<rparr>))"

text \<open>A call of \<^verbatim>\<open>extract\<close> on a child that keeps such a property.\<close>

definition child_ok :: "(world \<Rightarrow> bool) \<Rightarrow> child_call \<Rightarrow> bool" where
  "child_ok P ex = (\<forall>c v r v'. P v \<longrightarrow> ex c v = Some (r, v') \<longrightarrow> P v')"

text \<open>A stage that keeps such a property.\<close>

definition stage_ok :: "(world \<Rightarrow> bool) \<Rightarrow> stage \<Rightarrow> bool" where
  "stage_ok P st = (\<forall>self w r self' w'. P w \<longrightarrow> st self w = Some (r, self', w') \<longrightarrow> P w')"

text \<open>
  A property of the state that a whole run keeps: besides the steps of the
  stages, it survives the steps of \<^verbatim>\<open>extract\<close> itself, which puts a checksum
  that is not yet visited into the visited set, enters the cascade for it, and
  prints the stack trace of an exception.
\<close>

definition run_stable :: "(world \<Rightarrow> bool) \<Rightarrow> bool" where
  "run_stable P =
     (frame_stable P \<and>
      (\<forall>w. P w \<longrightarrow>
         (\<forall>c. c \<notin> visited w \<longrightarrow>
              P (w\<lparr>visited := insert c (visited w)\<rparr>) \<and>
              (\<forall>n. P (log_event (Cascade c)
                        (w\<lparr>visited := insert c (visited w), tmp_count := n\<rparr>)))) \<and>
         (\<forall>e. P (log_event (Traceback e) w))))"

subsection \<open>The checksums whose cascade has run\<close>

text \<open>The checksums of the items that entered their cascade, in the order of the trace.\<close>

fun cascade_of :: "event \<Rightarrow> string list" where
  "cascade_of (Cascade c) = [c]"
| "cascade_of e = []"

definition cascades :: "event list \<Rightarrow> string list" where
  "cascades t = concat (map cascade_of t)"

text \<open>
  No checksum has entered a cascade twice, and every checksum that has entered one
  is in the visited set.
\<close>

definition dedup_inv :: "world \<Rightarrow> bool" where
  "dedup_inv w = (distinct (cascades (trace w)) \<and> set (cascades (trace w)) \<subseteq> visited w)"

subsection \<open>Example inputs\<close>

text \<open>A tree with a file next to a chain that leads to a UNIX root.\<close>

definition example_tree :: node where
  "example_tree =
     Dir [(''f'', File),
          (''a'', Dir [(''s'', Dir [(''bin'', Dir []), (''etc'', Dir []), (''lib'', Dir []),
                                    (''usr'', Dir []), (''x'', File)])])]"

text \<open>
  Two inputs with the same contents, in which the scanner finds nothing; a fresh
  extractor writing to \<^verbatim>\<open>/out\<close>.
\<close>

definition E_twins :: env where
  "E_twins = \<lparr>md5 = (\<lambda>b. b),
         binwalk = (\<lambda>p b sigs ex out. Inr []),
         tree = (\<lambda>p. if p = ''/in'' then Some (Dir [(''a'', File), (''b'', File)]) else None),
         magic = (\<lambda>p m. Inr (if m then ''application/octet-stream'' else ''data'')),
         tmpname = (\<lambda>n. replicate (Suc n) (CHR ''t'')),
         decrypt = (\<lambda>b. None),
         tar_gz = (\<lambda>p. ''TGZ'')\<rparr>"

definition W_twins :: world where
  "W_twins = \<lparr>output_dir = Some ''/out'', do_kernel = True, do_rootfs = True, visited = {},
         fs = [''/in/a'' \<mapsto> Reg ''A'', ''/in/b'' \<mapsto> Reg ''A''],
         tmp_count = 0, trace = []\<rparr>"

section \<open>Properties\<close>

subsection \<open>\<^verbatim>\<open>io_find_rootfs\<close>\<close>

lemma count_unix_filter:
  "count_unix es k =
     k + length (filter (\<lambda>e. fst e \<in> set UNIX_DIRS \<and> is_dir (snd e)) es)"
  by (induction es k rule: count_unix.induct) auto

lemma find_rootfs_body_flat:
  "is_dir d \<Longrightarrow> find_rootfs_body self start d False = Inr (findRootfs_flat start d)"
  by (cases d) (auto simp: find_rootfs_body_def findRootfs_flat_def canonical_count_def
      count_unix_filter UNIX_THRESHOLD_def split: prod.splits)

lemma find_in_subdirs_filter:
  "find_in_subdirs (\<lambda>p n. find_rootfs_body s p n False) p es =
     (case filter fst (map (\<lambda>e. findRootfs_flat (os_path_join p (fst e)) (snd e))
                         (filter (\<lambda>e. is_dir (snd e)) es)) of
        [] \<Rightarrow> None
      | r # rs \<Rightarrow> Some (Inr r))"
  by (induction es) (auto simp: find_rootfs_body_flat split: list.splits)

lemma io_find_rootfs_eq:
  "io_find_rootfs start (Dir es) recurse = Inr (findRootfs_spec start (Dir es) recurse)"
  unfolding io_find_rootfs_def
  by (subst find_rootfs_body_def)
     (auto simp: findRootfs_spec_def canonical_count_def count_unix_filter UNIX_THRESHOLD_def
        find_in_subdirs_filter split: prod.splits list.splits)

lemma collapse_done: "\<not> single_dir_child (snd (collapse p d))"
  by (induction p d rule: collapse.induct) auto

lemma first_hit_iff:
  "(case filter fst (map f xs) of [] \<Rightarrow> (False, s) | r # rs \<Rightarrow> r) = res \<Longrightarrow>
   fst res = list_ex (\<lambda>e. fst (f e)) xs"
  by (induction xs arbitrary: res) (auto split: list.splits if_splits)

lemma findRootfs_flat_fst:
  "fst (findRootfs_flat s d) = (4 \<le> canonical_count (snd (collapse s d)))"
  by (auto simp: findRootfs_flat_def split: prod.splits)

lemma list_ex_filter: "list_ex P (filter Q xs) = list_ex (\<lambda>e. Q e \<and> P e) xs"
  by (induction xs) auto

lemma findRootfs_spec_fst:
  "fst (findRootfs_spec start d recurse) =
     (4 \<le> canonical_count (snd (collapse start d)) \<or>
      (recurse \<and>
       list_ex (\<lambda>e. is_dir (snd e) \<and>
                   4 \<le> canonical_count
                          (snd (collapse (os_path_join (fst (collapse start d)) (fst e)) (snd e))))
               (listdir (snd (collapse start d)))))"
proof (cases "collapse start d")
  case (Pair p cur)
  show ?thesis
  proof (cases "4 \<le> canonical_count cur")
    case True
    with Pair show ?thesis by (simp add: findRootfs_spec_def)
  next
    case few: False
    show ?thesis
    proof (cases recurse)
      case True
      have "fst (case filter fst (map (\<lambda>e. findRootfs_flat (os_path_join p (fst e)) (snd e))
                              (filter (\<lambda>e. is_dir (snd e)) (listdir cur))) of
             [] \<Rightarrow> (False, start) | r # rs \<Rightarrow> r)
          = list_ex (\<lambda>e. fst (findRootfs_flat (os_path_join p (fst e)) (snd e)))
              (filter (\<lambda>e. is_dir (snd e)) (listdir cur))"
        by (rule first_hit_iff) simp
      with Pair few True show ?thesis
        by (simp add: findRootfs_spec_def findRootfs_flat_fst list_ex_filter)
    next
      case False
      with Pair few show ?thesis by (simp add: findRootfs_spec_def)
    qed
  qed
qed

text \<open>
  C4. On every starting directory \<^verbatim>\<open>io_find_rootfs\<close> returns what the
  specification's \<open>findRootfs\<close> describes: it first collapses single-child
  directory chains (the directory it stops at no longer consists of a single
  subdirectory), returns \<open>(True, path)\<close> for the collapsed path when that
  directory has at least 4 immediate subdirectories with canonical UNIX names,
  otherwise with \<open>recurse\<close> the first hit of the non-recursive search among the
  subdirectories, and otherwise \<open>(False, start)\<close>. Hence it reports \<open>True\<close>
  exactly when the collapsed directory, or with \<open>recurse\<close> the collapse of one of
  its subdirectories, has at least 4 canonical subdirectories.
\<close>

theorem io_find_rootfs_recognition:
  "io_find_rootfs start (Dir es) recurse = Inr (findRootfs_spec start (Dir es) recurse)
   \<and> \<not> single_dir_child (snd (collapse start (Dir es)))
   \<and> fst (findRootfs_spec start (Dir es) recurse) =
       (4 \<le> canonical_count (snd (collapse start (Dir es))) \<or>
        (recurse \<and>
         list_ex (\<lambda>e. is_dir (snd e) \<and>
                     4 \<le> canonical_count
                            (snd (collapse (os_path_join (fst (collapse start (Dir es))) (fst e))
                                    (snd e))))
                 (listdir (snd (collapse start (Dir es))))))"
  using io_find_rootfs_eq collapse_done findRootfs_spec_fst by blast

theorem io_find_rootfs_recognition_witness:
  "io_find_rootfs ''/t'' example_tree True = Inr (True, ''/t/a/s'')
   \<and> io_find_rootfs ''/t'' example_tree False = Inr (False, ''/t'')
   \<and> findRootfs_spec ''/t'' example_tree True = (True, ''/t/a/s'')
   \<and> collapse ''/t'' example_tree = (''/t'', example_tree)"
  using io_find_rootfs_recognition [of "''/t''" "[(''f'', File),
          (''a'', Dir [(''s'', Dir [(''bin'', Dir []), (''etc'', Dir []), (''lib'', Dir []),
                                    (''usr'', Dir []), (''x'', File)])])]" True]
  by (simp add: example_tree_def findRootfs_spec_def findRootfs_flat_def canonical_count_def
      UNIX_DIRS_def os_path_join_def endswith_def io_find_rootfs_def find_rootfs_body_def
      UNIX_THRESHOLD_def)

subsection \<open>What every stage preserves\<close>

lemma frame_scan: "frame_stable P \<Longrightarrow> P w \<Longrightarrow> P (log_event (Scan p s x) w)"
  by (simp add: frame_stable_def)

lemma frame_newitem: "frame_stable P \<Longrightarrow> P w \<Longrightarrow> P (log_event (NewItem p d t) w)"
  by (simp add: frame_stable_def)

lemma frame_fs: "frame_stable P \<Longrightarrow> P w \<Longrightarrow> P (w\<lparr>fs := (fs w)(q \<mapsto> v)\<rparr>)"
  by (simp add: frame_stable_def)

lemma frame_tmp: "frame_stable P \<Longrightarrow> P w \<Longrightarrow> P (w\<lparr>tmp_count := n\<rparr>)"
  by (simp add: frame_stable_def)

lemma frame_do_kernel: "frame_stable P \<Longrightarrow> P w \<Longrightarrow> P (w\<lparr>do_kernel := False\<rparr>)"
  by (simp add: frame_stable_def)

lemma frame_do_rootfs: "frame_stable P \<Longrightarrow> P w \<Longrightarrow> P (w\<lparr>do_rootfs := False\<rparr>)"
  by (simp add: frame_stable_def)

lemma runBinwalk_frame:
  "frame_stable P \<Longrightarrow> P w \<Longrightarrow> runBinwalk E f x s out w = (r, w') \<Longrightarrow> P w'"
  by (auto simp: runBinwalk_def Let_def frame_scan split: option.splits fent.splits)

lemma mkstemp_frame:
  assumes "frame_stable P" "P w" "mkstemp E d w = (p, w')"
  shows "P w'"
proof -
  have "P (w\<lparr>tmp_count := Suc (tmp_count w)\<rparr>)" using assms by (simp add: frame_tmp)
  from frame_fs [OF assms(1) this, of "os_path_join d (tmpname E (tmp_count w))" "Reg []"]
  show ?thesis using assms(3) by (auto simp: mkstemp_def Let_def)
qed

lemma io_dd_frame:
  "frame_stable P \<Longrightarrow> P w \<Longrightarrow> io_dd i off sz out w = (r, w') \<Longrightarrow> P w'"
  by (auto simp: io_dd_def Let_def frame_fs split: option.splits fent.splits if_splits)

lemma shutil_copy_frame:
  "frame_stable P \<Longrightarrow> P w \<Longrightarrow> shutil_copy src dst w = (r, w') \<Longrightarrow> P w'"
  by (auto simp: shutil_copy_def frame_fs split: option.splits fent.splits)

lemma emit_rootfs_frame:
  "frame_stable P \<Longrightarrow> P w \<Longrightarrow> P (emit_rootfs E self d w)"
  by (auto simp: emit_rootfs_def make_archive_def frame_fs frame_do_rootfs split: option.splits)

lemma new_ExtractionItem_frame:
  "frame_stable P \<Longrightarrow> P w \<Longrightarrow> new_ExtractionItem E p d tg w = (r, w') \<Longrightarrow> P w'"
  by (auto simp: new_ExtractionItem_def Let_def frame_newitem split: sum.splits)

lemma carve_and_extract_frame:
  assumes "frame_stable P" "child_ok P ex" "P w"
    and "carve_and_extract E ex off sz self w = Some (r, w')"
  shows "P w'"
proof -
  obtain tp w1 where m: "mkstemp E (case temp self of None \<Rightarrow> ''/tmp'' | Some t \<Rightarrow> t) w = (tp, w1)"
    by (cases "mkstemp E (case temp self of None \<Rightarrow> ''/tmp'' | Some t \<Rightarrow> t) w")
  have p1: "P w1" using mkstemp_frame [OF assms(1) assms(3) m] .
  obtain r2 w2 where d: "io_dd (item_path self) off sz tp w1 = (r2, w2)"
    by (cases "io_dd (item_path self) off sz tp w1")
  have p2: "P w2" using io_dd_frame [OF assms(1) p1 d] .
  obtain r3 w3 where n: "new_ExtractionItem E tp (depth self) (Some (tag self)) w2 = (r3, w3)"
    by (cases "new_ExtractionItem E tp (depth self) (Some (tag self)) w2")
  have p3: "P w3" using new_ExtractionItem_frame [OF assms(1) p2 n] .
  show ?thesis
    using assms(2,4) m d n p2 p3
    by (auto simp: carve_and_extract_def child_ok_def split: sum.splits)
qed

lemma uimage_entry_frame:
  assumes "frame_stable P" "child_ok P ex" "P w"
    and "uimage_entry E ex entry self w = Some (r, self', w')"
  shows "P w'"
  using assms(3,4) carve_and_extract_frame [OF assms(1,2,3)]
  by (auto simp: uimage_entry_def Let_def split: if_splits sum.splits option.splits prod.splits)

lemma tplink_entry_frame:
  assumes "frame_stable P" "child_ok P ex" "P w"
    and "tplink_entry E ex entry self w = Some (r, self', w')"
  shows "P w'"
  using assms(3,4) carve_and_extract_frame [OF assms(1,2)]
  by (auto simp: tplink_entry_def Let_def
        split: if_splits sum.splits option.splits prod.splits bool.splits) blast+

lemma firmware_entries_frame:
  assumes "frame_stable P" "child_ok P ex"
  shows "P w \<Longrightarrow> firmware_entries E ex entries self w = Some (r, self', w') \<Longrightarrow> P w'"
proof (induction entries arbitrary: self w)
  case Nil
  then show ?case by simp
next
  case (Cons entry rest)
  define step where "step =
    (if contains ''uImage header'' (description entry) then uimage_entry E ex entry self w
     else if \<not> get_kernel_status self \<and> \<not> get_rootfs_status self
             \<and> contains ''rootfs offset: '' (description entry)
             \<and> contains ''kernel offset: '' (description entry)
          then tplink_entry E ex entry self w
     else Some (Inr (Continue ()), self, w))"
  show ?case
  proof (cases step)
    case None
    with Cons.prems(2) show ?thesis by (simp add: step_def)
  next
    case (Some t)
    obtain r1 s1 w1 where t: "t = (r1, s1, w1)" by (cases t)
    have p1: "P w1"
      using Some t uimage_entry_frame [OF assms Cons.prems(1)]
        tplink_entry_frame [OF assms Cons.prems(1)] Cons.prems(1)
      by (auto simp: step_def split: if_splits)
    show ?thesis
      using Cons.prems(2) Some t p1 Cons.IH [OF p1]
      by (auto simp: step_def [symmetric] split: sum.splits flow.splits)
  qed
qed

lemma check_firmware_frame:
  assumes "frame_stable P" "child_ok P ex" "P w"
    and "check_firmware E ex self w = Some (r, self', w')"
  shows "P w'"
proof -
  obtain r1 w1 where s: "runBinwalk E (item_path self) False headerSignatures [] w = (r1, w1)"
    by (cases "runBinwalk E (item_path self) False headerSignatures [] w")
  have p1: "P w1" using runBinwalk_frame [OF assms(1,3) s] .
  show ?thesis
    using assms(4) s p1 firmware_entries_frame [OF assms(1,2) p1]
    by (auto simp: check_firmware_def split: sum.splits)
qed

lemma visit_files_frame:
  assumes "frame_stable P" "child_ok P ex"
  shows "P w \<Longrightarrow> visit_files E ex root files count self w = Some (r, self', w') \<Longrightarrow> P w'"
proof (induction files arbitrary: count self w)
  case Nil
  then show ?case by simp
next
  case (Cons filename rest)
  show ?case
  proof (cases "count > RECURSION_BREADTH")
    case True
    with Cons.prems show ?thesis by simp
  next
    case False
    obtain r1 w1 where n: "new_ExtractionItem E (os_path_join root filename) (depth self + 1)
        (Some (tag self)) w = (r1, w1)"
      by (cases "new_ExtractionItem E (os_path_join root filename) (depth self + 1) (Some (tag self)) w")
    have p1: "P w1" using new_ExtractionItem_frame [OF assms(1) Cons.prems(1) n] .
    show ?thesis
    proof (cases r1)
      case (Inl e)
      with Cons.prems(2) False n p1 show ?thesis by auto
    next
      case (Inr new_item)
      show ?thesis
      proof (cases "ex new_item w1")
        case None
        with Cons.prems(2) False n Inr show ?thesis by simp
      next
        case (Some t)
        obtain r2 w2 where t: "t = (r2, w2)" by (cases t)
        have p2: "P w2" using assms(2) p1 Some t by (auto simp: child_ok_def)
        show ?thesis
          using Cons.prems(2) False n Inr Some t p2 Cons.IH [OF p2]
          by (auto simp: Let_def split: sum.splits if_splits)
      qed
    qed
  qed
qed

lemma walk_loop_frame:
  assumes "frame_stable P" "child_ok P ex"
  shows "P w \<Longrightarrow> walk_loop E ex desc dirs count self w = Some (r, self', w') \<Longrightarrow> P w'"
proof (induction dirs arbitrary: count self w)
  case Nil
  then show ?case by simp
next
  case (Cons d rest)
  obtain root files where d: "d = (root, files)" by (cases d)
  show ?case
  proof (cases "order_files desc files")
    case (Inl e)
    with Cons.prems d show ?thesis by simp
  next
    case (Inr ordered)
    show ?thesis
    proof (cases "visit_files E ex root ordered count self w")
      case None
      with Cons.prems d Inr show ?thesis by simp
    next
      case (Some t)
      obtain r1 s1 w1 where t: "t = (r1, s1, w1)" by (cases t)
      have p1: "P w1" using visit_files_frame [OF assms Cons.prems(1)] Some t by blast
      show ?thesis
        using Cons.prems(2) d Inr Some t p1 Cons.IH [OF p1]
        by (auto split: sum.splits flow.splits)
    qed
  qed
qed

lemma recursive_entries_frame:
  assumes "frame_stable P" "child_ok P ex"
  shows "P w \<Longrightarrow> recursive_entries E ex entries self w = Some (r, self', w') \<Longrightarrow> P w'"
proof (induction entries arbitrary: self w)
  case Nil
  then show ?case by simp
next
  case (Cons entry rest)
  show ?case
  proof (cases "extractionDetails entry")
    case None
    with Cons show ?thesis by simp
  next
    case (Some d)
    show ?thesis
    proof (cases "success d")
      case False
      with Cons Some show ?thesis by simp
    next
      case True
      show ?thesis
      proof (cases "find_rootfs_at E (outputDir d)")
        case (Inl e)
        with Cons.prems Some True show ?thesis by simp
      next
        case (Inr unix)
        show ?thesis
        proof (cases "fst unix")
          case hit: True
          with Cons.prems Some True Inr emit_rootfs_frame [OF assms(1) Cons.prems(1)]
          show ?thesis by auto
        next
          case miss: False
          show ?thesis
          proof (cases "walk_loop E ex (description entry) (os_walk E (outputDir d)) 0 self w")
            case None
            with Cons.prems Some True Inr miss show ?thesis by simp
          next
            case walked: (Some t)
            obtain r1 s1 w1 where t: "t = (r1, s1, w1)" by (cases t)
            have p1: "P w1" using walk_loop_frame [OF assms Cons.prems(1)] walked t by blast
            show ?thesis
              using Cons.prems(2) Some True Inr miss walked t p1 Cons.IH [OF p1]
              by (auto split: sum.splits flow.splits)
          qed
        qed
      qed
    qed
  qed
qed

lemma check_recursive_frame:
  assumes "frame_stable P" "child_ok P ex" "P w"
    and "check_recursive E ex fmt self w = Some (r, self', w')"
  shows "P w'"
proof -
  obtain r1 w1 where s: "runBinwalk E (item_path self) True fmt (str_temp self) w = (r1, w1)"
    by (cases "runBinwalk E (item_path self) True fmt (str_temp self) w")
  have p1: "P w1" using runBinwalk_frame [OF assms(1,3) s] .
  show ?thesis
    using assms(4) s p1 recursive_entries_frame [OF assms(1,2) p1]
    by (auto simp: check_recursive_def split: sum.splits)
qed

lemma check_encryption_frame:
  "frame_stable P \<Longrightarrow> P w \<Longrightarrow> check_encryption E self w = (r, self', w') \<Longrightarrow> P w'"
  by (auto simp: check_encryption_def frame_fs split: option.splits fent.splits if_splits)

lemma check_kernel_frame:
  assumes "frame_stable P" "P w" "check_kernel E self w = (r, self', w')"
  shows "P w'"
proof (cases "get_kernel_status self")
  case True
  with assms show ?thesis by (simp add: check_kernel_def)
next
  case False
  obtain r1 w1 where s: "runBinwalk E (item_path self) False kernelSignatures [] w = (r1, w1)"
    by (cases "runBinwalk E (item_path self) False kernelSignatures [] w")
  have p1: "P w1" using runBinwalk_frame [OF assms(1,2) s] .
  show ?thesis
    using assms(3) False s p1 shutil_copy_frame [OF assms(1) p1] frame_do_kernel [OF assms(1) p1]
    by (auto simp: check_kernel_def split: sum.splits list.splits if_splits option.splits prod.splits)
qed

lemma rootfs_entries_frame:
  assumes "frame_stable P"
  shows "P w \<Longrightarrow> rootfs_entries E entries self w = (r, self', w') \<Longrightarrow> P w'"
proof (induction entries)
  case Nil
  then show ?case by simp
next
  case (Cons entry rest)
  show ?case
    using Cons emit_rootfs_frame [OF assms Cons.prems(1)]
    by (auto split: sum.splits option.splits if_splits)
qed

lemma check_rootfs_frame:
  assumes "frame_stable P" "P w" "check_rootfs E self w = (r, self', w')"
  shows "P w'"
proof (cases "get_rootfs_status self")
  case True
  with assms show ?thesis by (simp add: check_rootfs_def)
next
  case False
  obtain r1 w1 where s: "runBinwalk E (item_path self) True (ubiSignatures @ rootfsSignatures)
      (str_temp self) w = (r1, w1)"
    by (cases "runBinwalk E (item_path self) True (ubiSignatures @ rootfsSignatures) (str_temp self) w")
  have p1: "P w1" using runBinwalk_frame [OF assms(1,2) s] .
  show ?thesis
    using assms(3) False s p1 rootfs_entries_frame [OF assms(1) p1]
    by (auto simp: check_rootfs_def split: sum.splits)
qed

lemma cascade_frame:
  assumes "list_all (stage_ok P) stages"
  shows "P w \<Longrightarrow> cascade stages self w = Some (r, self', w') \<Longrightarrow> P w'"
  using assms
proof (induction stages arbitrary: self w)
  case Nil
  then show ?case by simp
next
  case (Cons st rest)
  from Cons.prems(3) have st: "stage_ok P st" and rest: "list_all (stage_ok P) rest" by simp_all
  show ?case
  proof (cases "st self w")
    case None
    with Cons.prems(2) show ?thesis by simp
  next
    case (Some t)
    obtain r1 s1 w1 where t: "t = (r1, s1, w1)" by (cases t)
    have p1: "P w1" using st Some t Cons.prems(1) by (auto simp: stage_ok_def)
    show ?thesis
      using Cons.prems(2) Some t p1 Cons.IH [OF p1 _ rest]
      by (auto simp: Let_def split: sum.splits if_splits)
  qed
qed

lemma analyses_frame:
  assumes "frame_stable P" "child_ok P ex"
  shows "list_all (stage_ok P) (analyses E ex)"
proof -
  have a: "stage_ok P (check_archive E ex)" and c: "stage_ok P (check_compressed E ex)"
    using check_recursive_frame [OF assms]
    by (auto simp: stage_ok_def check_archive_def check_compressed_def)
  have f: "stage_ok P (check_firmware E ex)"
    using check_firmware_frame [OF assms] by (auto simp: stage_ok_def)
  have e: "stage_ok P (\<lambda>self w. Some (check_encryption E self w))"
    using check_encryption_frame [OF assms(1)] by (auto simp: stage_ok_def)
  have k: "stage_ok P (\<lambda>self w. Some (check_kernel E self w))"
    using check_kernel_frame [OF assms(1)] by (auto simp: stage_ok_def)
  have r: "stage_ok P (\<lambda>self w. Some (check_rootfs E self w))"
    using check_rootfs_frame [OF assms(1)] by (auto simp: stage_ok_def)
  show ?thesis using a c f e k r by (simp add: analyses_def)
qed

subsection \<open>The entry guards of \<^verbatim>\<open>extract\<close>\<close>

lemma item_extract_skip:
  "get_status self \<or> depth self > RECURSION_DEPTH \<or> checksum self \<in> visited w \<Longrightarrow>
   item_extract (Suc n) E self w = Some (Inr (result_of (get_status self) self), w)"
proof (cases "get_status self")
  case True
  then show ?thesis by simp
next
  case False
  assume "get_status self \<or> depth self > RECURSION_DEPTH \<or> checksum self \<in> visited w"
  with False have "depth self > RECURSION_DEPTH \<or> checksum self \<in> visited w" by simp
  then show ?thesis
  proof
    assume "depth self > RECURSION_DEPTH"
    with False show ?thesis by simp
  next
    assume v: "checksum self \<in> visited w"
    show ?thesis
    proof (cases "depth self > RECURSION_DEPTH")
      case True
      with False show ?thesis by simp
    next
      case nd: False
      with False v show ?thesis by simp
    qed
  qed
qed

lemma item_extract_enter:
  assumes "\<not> get_status self" "\<not> depth self > RECURSION_DEPTH" "checksum self \<notin> visited w"
  shows "item_extract (Suc n) E self w =
     (case check_blacklist E self of
        Inl e \<Rightarrow> Some (Inl e, w\<lparr>visited := insert (checksum self) (visited w)\<rparr>)
      | Inr True \<Rightarrow>
          Some (Inr (result_of (get_status self) self),
                w\<lparr>visited := insert (checksum self) (visited w)\<rparr>)
      | Inr False \<Rightarrow>
          try_except
            (cascade (analyses E (item_extract n E))
               (self\<lparr>temp := Some (fst (mkdtemp E (w\<lparr>visited := insert (checksum self) (visited w)\<rparr>)))\<rparr>)
               (log_event (Cascade (checksum self))
                  (snd (mkdtemp E (w\<lparr>visited := insert (checksum self) (visited w)\<rparr>))))))"
  using assms by (simp add: Let_def case_prod_beta split: sum.splits bool.splits)

declare item_extract.simps(2) [simp del]

lemma try_except_frame:
  assumes "\<And>r1 s1 w4. c = Some (r1, s1, w4) \<Longrightarrow> P w4"
    and "\<And>w e. P w \<Longrightarrow> P (log_event (Traceback e) w)"
    and "try_except c = Some (r, w')"
  shows "P w'"
proof (cases c)
  case None
  with assms(3) show ?thesis by (simp add: try_except_def)
next
  case (Some t)
  obtain r1 s1 w4 where t: "t = (r1, s1, w4)" by (cases t)
  have p4: "P w4" using assms(1) Some t by simp
  show ?thesis
  proof (cases r1)
    case (Inl e)
    with assms(3) Some t assms(2) [OF p4, of e] show ?thesis by (simp add: try_except_def)
  next
    case (Inr f)
    with assms(3) Some t p4 show ?thesis by (cases f) (simp_all add: try_except_def)
  qed
qed

subsection \<open>What a whole run preserves\<close>

lemma run_stable_frame: "run_stable P \<Longrightarrow> frame_stable P"
  by (simp add: run_stable_def)

lemma run_stable_visit:
  "run_stable P \<Longrightarrow> P w \<Longrightarrow> c \<notin> visited w \<Longrightarrow> P (w\<lparr>visited := insert c (visited w)\<rparr>)"
  by (simp add: run_stable_def)

lemma run_stable_cascade:
  "run_stable P \<Longrightarrow> P w \<Longrightarrow> c \<notin> visited w \<Longrightarrow>
   P (log_event (Cascade c) (w\<lparr>visited := insert c (visited w), tmp_count := n\<rparr>))"
  by (simp add: run_stable_def)

lemma run_stable_traceback: "run_stable P \<Longrightarrow> P w \<Longrightarrow> P (log_event (Traceback e) w)"
  by (simp add: run_stable_def)

lemma item_extract_stable:
  assumes st: "run_stable P"
  shows "P w \<Longrightarrow> item_extract n E self w = Some (r, w') \<Longrightarrow> P w'"
proof (induction n arbitrary: self w r w')
  case 0
  then show ?case by simp
next
  case (Suc n)
  have child: "child_ok P (item_extract n E)"
    using Suc.IH unfolding child_ok_def by blast
  show ?case
  proof (cases "get_status self \<or> depth self > RECURSION_DEPTH \<or> checksum self \<in> visited w")
    case True
    from Suc.prems(2) have "w' = w" by (simp add: item_extract_skip [OF True])
    with Suc.prems(1) show ?thesis by simp
  next
    case False
    then have g: "\<not> get_status self" "\<not> depth self > RECURSION_DEPTH" "checksum self \<notin> visited w"
      by simp_all
    define w1 where "w1 = w\<lparr>visited := insert (checksum self) (visited w)\<rparr>"
    have i1: "P w1" unfolding w1_def using st Suc.prems(1) g(3) by (rule run_stable_visit)
    note run = Suc.prems(2) [unfolded item_extract_enter [OF g], folded w1_def]
    show ?thesis
    proof (cases "check_blacklist E self")
      case (Inl e)
      with run i1 show ?thesis by simp
    next
      case (Inr b)
      show ?thesis
      proof (cases b)
        case True
        with run Inr i1 show ?thesis by simp
      next
        case nb: False
        define w3 where "w3 = log_event (Cascade (checksum self)) (snd (mkdtemp E w1))"
        have "w3 = log_event (Cascade (checksum self))
                     (w\<lparr>visited := insert (checksum self) (visited w),
                        tmp_count := Suc (tmp_count w)\<rparr>)"
          by (simp add: w3_def w1_def mkdtemp_def)
        then have i3: "P w3"
          using run_stable_cascade [OF st Suc.prems(1) g(3)] by simp
        from run Inr nb
        have "try_except (cascade (analyses E (item_extract n E))
                 (self\<lparr>temp := Some (fst (mkdtemp E w1))\<rparr>) w3) = Some (r, w')"
          by (simp add: w3_def)
        then show ?thesis
        proof (rule try_except_frame [rotated 2])
          fix r1 s1 w4
          assume "cascade (analyses E (item_extract n E))
                 (self\<lparr>temp := Some (fst (mkdtemp E w1))\<rparr>) w3 = Some (r1, s1, w4)"
          then show "P w4"
            using cascade_frame [OF analyses_frame [OF run_stable_frame [OF st] child] i3] by blast
        next
          fix v e assume "P v" with st show "P (log_event (Traceback e) v)"
            by (rule run_stable_traceback)
        qed
      qed
    qed
  qed
qed

lemma extract_item_stable:
  assumes "run_stable P" "P w" "extract_item n E p w = Some (r, w')"
  shows "P w'"
proof -
  obtain r1 w1 where c: "new_ExtractionItem E p 0 None w = (r1, w1)"
    by (cases "new_ExtractionItem E p 0 None w")
  have i1: "P w1"
    using new_ExtractionItem_frame [OF run_stable_frame [OF assms(1)] assms(2) c] .
  show ?thesis
  proof (cases r1)
    case (Inl e)
    with assms(3) c i1 show ?thesis by (simp add: extract_item_def)
  next
    case (Inr it)
    with assms(3) c have "item_extract n E it w1 = Some (r, w')" by (simp add: extract_item_def)
    with i1 show ?thesis by (rule item_extract_stable [OF assms(1)])
  qed
qed

lemma extract_list_stable:
  assumes st: "run_stable P"
  shows "P w \<Longrightarrow> extract_list n E ps results w = Some (r, w') \<Longrightarrow> P w'"
proof (induction ps arbitrary: results w)
  case Nil
  then show ?case by simp
next
  case (Cons p ps)
  show ?case
  proof (cases "extract_item n E p w")
    case None
    with Cons.prems show ?thesis by simp
  next
    case (Some t)
    obtain r1 w1 where t: "t = (r1, w1)" by (cases t)
    have i1: "P w1" using extract_item_stable [OF st Cons.prems(1)] Some t by simp
    show ?thesis
    proof (cases r1)
      case (Inl e)
      with Cons.prems(2) Some t i1 show ?thesis by simp
    next
      case (Inr res)
      with Cons.prems(2) Some t have "extract_list n E ps (results @ [res]) w1 = Some (r, w')"
        by simp
      with i1 show ?thesis by (rule Cons.IH)
    qed
  qed
qed

subsection \<open>No checksum enters a cascade twice\<close>

lemma cascades_append [simp]: "cascades (t @ u) = cascades t @ cascades u"
  by (simp add: cascades_def)

lemma dedup_frame: "frame_stable dedup_inv"
  by (simp add: frame_stable_def dedup_inv_def log_event_def cascades_def)

lemma dedup_run_stable: "run_stable dedup_inv"
  unfolding run_stable_def
proof (intro conjI allI impI)
  show "frame_stable dedup_inv" by (rule dedup_frame)
next
  fix w c assume "dedup_inv w" "c \<notin> visited w"
  then show "dedup_inv (w\<lparr>visited := insert c (visited w)\<rparr>)"
    by (auto simp: dedup_inv_def)
next
  fix w c n assume "dedup_inv w" "c \<notin> visited w"
  then show "dedup_inv (log_event (Cascade c) (w\<lparr>visited := insert c (visited w), tmp_count := n\<rparr>))"
    by (auto simp: dedup_inv_def log_event_def cascades_def)
next
  fix w e assume "dedup_inv w"
  then show "dedup_inv (log_event (Traceback e) w)"
    by (simp add: dedup_inv_def log_event_def cascades_def)
qed

end
